theory Spec2Isabelle
  imports Complex_Main "HOL-Library.Sublist"
begin

section \<open>SafeguardX threat detection: a model of \<open>Routes/threat_detect.py\<close>\<close>

text \<open>
  Conventions of the model.
  \<^item> Python strings are \<open>string\<close>s (byte lists); \<open>str.lower\<close> folds the ASCII letters.
  \<^item> Python floats are modelled as exact reals: the arithmetic of the scorer is the
    ideal one, without binary rounding.
  \<^item> The random module and the clock are made explicit: every call that draws a random
    number or reads \<open>datetime.now()\<close> takes the drawn value as an argument.
  \<^item> A threat is a mutable dict shared by \<open>active_threats\<close> and \<open>threat_history\<close>;
    the model keeps the dicts in a heap and the two lists hold references into it.
  \<^item> Every \<open>await\<close> of a background task is a point where other handlers and tasks may
    run; a task is modelled by its remaining program, one segment per step. A sleep
    bounds from below the time at which its task resumes, and a task starts once the
    response of its request is sent, so the model leaves the order in which the segments
    of different tasks run open.
\<close>

subsection \<open>Strings\<close>

definition lower_char :: "char \<Rightarrow> char" where
  "lower_char c =
     (let n = (of_char c :: nat)
      in if of_char CHR ''A'' \<le> n \<and> n \<le> of_char CHR ''Z'' then char_of (n + 32) else c)"

definition str_lower :: "string \<Rightarrow> string" where
  "str_lower s = map lower_char s"

text \<open>Python's \<open>p in s\<close> on strings: \<open>p\<close> occurs in \<open>s\<close> as a contiguous substring.\<close>

fun str_contains :: "string \<Rightarrow> string \<Rightarrow> bool" where
  "str_contains [] p = (p = [])"
| "str_contains (c # cs) p = (prefix p (c # cs) \<or> str_contains cs p)"

subsection \<open>Request models\<close>

record log_entry =
  source :: string
  level :: string
  message :: string
  metadata :: "(string \<times> string) list option"

subsection \<open>The anomaly detector\<close>

definition risk_patterns :: "string list" where
  "risk_patterns =
     [''failed login'', ''brute force'', ''sql injection'', ''malware'',
      ''ddos'', ''port scan'', ''privilege escalation'', ''data exfiltration'']"

text \<open>The loop \<open>for pattern in self.risk_patterns: if pattern in message_lower: score += 0.3\<close>.\<close>

fun scan_patterns :: "string list \<Rightarrow> string \<Rightarrow> real \<Rightarrow> real" where
  "scan_patterns [] message_lower score = score"
| "scan_patterns (pattern # rest) message_lower score =
     scan_patterns rest message_lower
       (if str_contains message_lower pattern then score + 0.3 else score)"

definition level_scores :: "(string \<times> real) list" where
  "level_scores = [(''CRITICAL'', 0.4), (''ERROR'', 0.3), (''WARN'', 0.2), (''INFO'', 0.1)]"

text \<open>\<open>dict.get(key, default)\<close>.\<close>

definition dict_get :: "('k \<times> 'v) list \<Rightarrow> 'k \<Rightarrow> 'v \<Rightarrow> 'v" where
  "dict_get d k dflt = (case map_of d k of None \<Rightarrow> dflt | Some v \<Rightarrow> v)"

text \<open>
  \<open>random.uniform(a, b)\<close> is \<open>a + (b - a) * random()\<close>; \<open>u\<close> is the value of
  \<open>random()\<close>, which the generator draws from \<open>[0, 1)\<close>.
\<close>

definition random_uniform :: "real \<Rightarrow> real \<Rightarrow> real \<Rightarrow> real" where
  "random_uniform a b u = a + (b - a) * u"

definition detect_anomaly :: "real \<Rightarrow> log_entry \<Rightarrow> real" where
  "detect_anomaly u log_entry =
     (let score = 0.1;
          message_lower = str_lower (message log_entry);
          score = scan_patterns risk_patterns message_lower score;
          score = score + dict_get level_scores (level log_entry) 0.1;
          score = score + random_uniform 0 0.2 u
      in min score 1.0)"

text \<open>
  \<open>random.choice(seq)\<close> is \<open>seq[self._randbelow(len(seq))]\<close>; \<open>rnd\<close> is the raw
  draw of the generator, reduced below the length of the sequence.
\<close>

definition random_choice :: "nat \<Rightarrow> 'a list \<Rightarrow> 'a" where
  "random_choice rnd seq = seq ! (rnd mod length seq)"

record classification =
  c_severity :: string
  c_category :: string
  c_risk_level :: int
  c_immediate_action :: bool

definition classify_threat :: "nat \<Rightarrow> real \<Rightarrow> string \<Rightarrow> classification" where
  "classify_threat rnd score src =
     (if score > 0.9 then
        \<lparr>c_severity = ''critical'',
         c_category = random_choice rnd [''APT'', ''Zero-day'', ''Data Breach''],
         c_risk_level = 5,
         c_immediate_action = True\<rparr>
      else if score > 0.7 then
        \<lparr>c_severity = ''high'',
         c_category = random_choice rnd [''DDoS'', ''Malware'', ''Brute Force''],
         c_risk_level = 4,
         c_immediate_action = True\<rparr>
      else if score > 0.5 then
        \<lparr>c_severity = ''medium'',
         c_category = random_choice rnd [''Phishing'', ''Policy Violation''],
         c_risk_level = 3,
         c_immediate_action = False\<rparr>
      else
        \<lparr>c_severity = ''low'',
         c_category = ''Informational'',
         c_risk_level = 1,
         c_immediate_action = False\<rparr>)"

subsection \<open>Python helpers\<close>

text \<open>\<open>next((x for x in xs if P(x)), None)\<close>, as the position of the first match.\<close>

fun first_index :: "('a \<Rightarrow> bool) \<Rightarrow> 'a list \<Rightarrow> nat option" where
  "first_index P [] = None"
| "first_index P (x # xs) = (if P x then Some 0 else map_option Suc (first_index P xs))"

text \<open>
  The slice \<open>xs[start:]\<close>: a negative start counts from the end, and a start outside the
  list is clipped to it.
\<close>

definition slice_from :: "int \<Rightarrow> 'a list \<Rightarrow> 'a list" where
  "slice_from start xs =
     (let n = int (length xs);
          i = (if start < 0 then max (start + n) 0 else min start n)
      in drop (nat i) xs)"

text \<open>\<open>round(x, ndigits)\<close>: to the nearest multiple of \<open>10 ** -ndigits\<close>, ties to even.\<close>

definition round_half_even :: "real \<Rightarrow> int" where
  "round_half_even x =
     (let f = \<lfloor>x\<rfloor>; d = x - of_int f
      in if d < 1/2 then f else if d > 1/2 then f + 1 else if even f then f else f + 1)"

definition py_round :: "real \<Rightarrow> nat \<Rightarrow> real" where
  "py_round x ndigits = of_int (round_half_even (x * 10 ^ ndigits)) / 10 ^ ndigits"

text \<open>\<open>str(n)\<close> for an integer, as an f-string formats it.\<close>

fun str_of_nat :: "nat \<Rightarrow> string" where
  "str_of_nat n =
     (if n < 10 then [char_of (48 + n)]
      else str_of_nat (n div 10) @ [char_of (48 + n mod 10)])"

declare str_of_nat.simps [simp del]

definition str_of_int :: "int \<Rightarrow> string" where
  "str_of_int i = (if i < 0 then ''-'' @ str_of_nat (nat (- i)) else str_of_nat (nat i))"

subsection \<open>The in-memory storage\<close>

text \<open>A threat dict. The keys set later in the lifecycle are absent (\<open>None\<close>) at creation.\<close>

record threat =
  t_id :: int
  t_log_id :: int
  t_timestamp :: string
  t_source :: string
  t_severity :: string
  t_category :: string
  t_confidence :: real
  t_status :: string
  t_risk_level :: int
  t_description :: string
  response_initiated :: "string option"
  response_type :: "string option"
  auto_response_started :: "string option"
  response_actions :: "string list option"
  playbook_executed :: "string option"
  resolved_timestamp :: "string option"
  resolution_timestamp :: "string option"
  resolution_summary :: "string option"

record alert =
  a_id :: int
  a_threat_id :: int
  a_severity :: string
  a_message :: string
  a_timestamp :: string
  a_read :: bool
  a_actions_required :: bool
  read_timestamp :: "string option"

text \<open>
  The module's globals. \<open>heap\<close> holds the threat dicts; \<open>active_threats\<close> and
  \<open>threat_history\<close> are lists of references (positions in the heap), so that a change
  of a threat through one list is seen through the other.
\<close>

record store =
  heap :: "threat list"
  active_threats :: "nat list"
  threat_history :: "nat list"
  system_alerts :: "alert list"

definition empty_store :: store where
  "empty_store = \<lparr>heap = [], active_threats = [], threat_history = [], system_alerts = []\<rparr>"

definition deref :: "store \<Rightarrow> nat \<Rightarrow> threat" where
  "deref s r = heap s ! r"

text \<open>An in-place change of the dict behind reference \<open>r\<close>.\<close>

definition upd_threat :: "nat \<Rightarrow> (threat \<Rightarrow> threat) \<Rightarrow> store \<Rightarrow> store" where
  "upd_threat r f s = s\<lparr>heap := (heap s)[r := f (heap s ! r)]\<rparr>"

text \<open>\<open>next((t for t in active_threats if t['id'] == threat_id), None)\<close>.\<close>

definition find_threat :: "store \<Rightarrow> int \<Rightarrow> nat option" where
  "find_threat s threat_id = find (\<lambda>r. t_id (deref s r) = threat_id) (active_threats s)"

subsection \<open>Background tasks\<close>

text \<open>
  A scheduled task, by the point its coroutine has reached. Once a task has looked its
  threat up it holds the reference to the dict.
  \<^item> \<open>AutoStart\<close>: \<open>initiate_automated_response(threat_id)\<close>, in \<open>sleep(1)\<close>;
  \<^item> \<open>AutoBlockIp\<close>, \<open>AutoIsolate\<close>, \<open>AutoQuarantine\<close>: inside \<open>block_ip_address\<close>,
    \<open>isolate_system\<close>, \<open>quarantine_email\<close>, in \<open>sleep(0.5)\<close>;
  \<^item> \<open>AutoComplete\<close>: in \<open>sleep(2)\<close>, before the threat is resolved;
  \<^item> \<open>PlaybookStart\<close>: \<open>execute_response_playbook(threat_id, action_type)\<close>, not started;
  \<^item> \<open>PlaybookSleep\<close>: in \<open>sleep(3)\<close>, before the threat is resolved.
\<close>

datatype task =
    AutoStart int
  | AutoBlockIp nat
  | AutoIsolate nat
  | AutoQuarantine nat
  | AutoComplete nat
  | PlaybookStart int string
  | PlaybookSleep nat string

text \<open>\<open>threat.setdefault('response_actions', []).append(action)\<close>.\<close>

definition append_action :: "string \<Rightarrow> threat \<Rightarrow> threat" where
  "append_action action t =
     t\<lparr>response_actions :=
         Some ((case response_actions t of None \<Rightarrow> [] | Some acts \<Rightarrow> acts) @ [action])\<rparr>"

definition block_ip_address :: "nat \<Rightarrow> store \<Rightarrow> store" where
  "block_ip_address r s = upd_threat r (append_action ''IP address blocked at firewall'') s"

definition isolate_system :: "nat \<Rightarrow> store \<Rightarrow> store" where
  "isolate_system r s = upd_threat r (append_action ''System isolated from network'') s"

definition quarantine_email :: "nat \<Rightarrow> store \<Rightarrow> store" where
  "quarantine_email r s = upd_threat r (append_action ''Malicious email quarantined'') s"

definition playbook_actions :: "(string \<times> string list) list" where
  "playbook_actions =
     [(''auto_mitigate'', [''Block suspicious IP'', ''Isolate affected system'', ''Notify security team'']),
      (''investigate'', [''Collect forensic data'', ''Analyze threat vectors'', ''Generate report'']),
      (''contain'', [''Network segmentation'', ''Access restrictions'', ''Monitor communications''])]"

text \<open>
  One segment of a task, from the point it has reached to its next \<open>await\<close> (or its end):
  the store it leaves and the rest of the task, if any. \<open>now\<close> is the clock read in
  the segment.
\<close>

fun run_task :: "string \<Rightarrow> task \<Rightarrow> store \<Rightarrow> store \<times> task option" where
  "run_task now (AutoStart threat_id) s =
     (case find_threat s threat_id of
        None \<Rightarrow> (s, None)
      | Some r \<Rightarrow>
          (let s1 = upd_threat r
                 (\<lambda>t. t\<lparr>t_status := ''mitigating'', auto_response_started := Some now\<rparr>) s;
               category = t_category (deref s1 r)
           in if category \<in> set [''DDoS'', ''Brute Force''] then (s1, Some (AutoBlockIp r))
              else if category \<in> set [''Malware'', ''APT''] then (s1, Some (AutoIsolate r))
              else if category = ''Phishing'' then (s1, Some (AutoQuarantine r))
              else (s1, Some (AutoComplete r))))"
| "run_task now (AutoBlockIp r) s = (block_ip_address r s, Some (AutoComplete r))"
| "run_task now (AutoIsolate r) s = (isolate_system r s, Some (AutoComplete r))"
| "run_task now (AutoQuarantine r) s = (quarantine_email r s, Some (AutoComplete r))"
| "run_task now (AutoComplete r) s =
     (upd_threat r (\<lambda>t. t\<lparr>t_status := ''resolved'', resolved_timestamp := Some now\<rparr>) s, None)"
| "run_task now (PlaybookStart threat_id action_type) s =
     (case find_threat s threat_id of
        None \<Rightarrow> (s, None)
      | Some r \<Rightarrow>
          (let actions = dict_get playbook_actions action_type [''Default response'']
           in (upd_threat r
                 (\<lambda>t. t\<lparr>response_actions := Some actions, playbook_executed := Some action_type\<rparr>) s,
               Some (PlaybookSleep r action_type))))"
| "run_task now (PlaybookSleep r action_type) s =
     (upd_threat r
        (\<lambda>t. t\<lparr>t_status := ''resolved'',
               resolution_timestamp := Some now,
               resolution_summary := Some (''Threat resolved using '' @ action_type @ '' playbook'')\<rparr>) s,
      None)"

subsection \<open>The HTTP handlers\<close>

datatype http_error = HTTPException int string

text \<open>
  What one call of \<open>/analyze\<close> draws from its environment: the value of \<open>random()\<close>
  behind \<open>random.uniform\<close>, the raw draw behind \<open>random.choice\<close>, and the three
  readings of \<open>datetime.now().isoformat()\<close>.
\<close>

record draws =
  d_uniform :: real
  d_choice :: nat
  d_now_log :: string
  d_now_threat :: string
  d_now_alert :: string

text \<open>The response dict of \<open>/analyze\<close>; the last three keys are present only for a threat.\<close>

record analyze_response =
  r_log_id :: int
  r_anomaly_score :: real
  r_status :: string
  r_threat_detected :: "bool option"
  r_threat :: "threat option"
  r_alert :: "alert option"

text \<open>
  \<open>analyze_log\<close>: the response, the store it leaves and the tasks it adds to
  \<open>background_tasks\<close>. Of the local \<open>log_record\<close> only the id is ever read.
\<close>

definition analyze_log :: "log_entry \<Rightarrow> draws \<Rightarrow> store \<Rightarrow> analyze_response \<times> store \<times> task list" where
  "analyze_log log_entry d s =
     (let anomaly_score = detect_anomaly (d_uniform d) log_entry;
          log_record_id = int (length (threat_history s)) + 1;
          response_data =
            \<lparr>r_log_id = log_record_id, r_anomaly_score = anomaly_score,
             r_status = ''processed'', r_threat_detected = None,
             r_threat = None, r_alert = None\<rparr>
      in if anomaly_score > 0.6 then
           (let threat_classification =
                  classify_threat (d_choice d) anomaly_score (source log_entry);
                threat =
                  \<lparr>t_id = int (length (active_threats s)) + 1,
                   t_log_id = log_record_id,
                   t_timestamp = d_now_threat d,
                   t_source = source log_entry,
                   t_severity = c_severity threat_classification,
                   t_category = c_category threat_classification,
                   t_confidence = py_round (anomaly_score * 100) 2,
                   t_status = ''active'',
                   t_risk_level = c_risk_level threat_classification,
                   t_description =
                     c_category threat_classification @ '' detected from '' @ source log_entry,
                   response_initiated = None, response_type = None,
                   auto_response_started = None, response_actions = None,
                   playbook_executed = None, resolved_timestamp = None,
                   resolution_timestamp = None, resolution_summary = None\<rparr>;
                ref = length (heap s);
                s1 = s\<lparr>heap := heap s @ [threat],
                       active_threats := active_threats s @ [ref],
                       threat_history := threat_history s @ [ref]\<rparr>;
                alert =
                  \<lparr>a_id = int (length (system_alerts s1)) + 1,
                   a_threat_id = t_id threat,
                   a_severity = t_severity threat,
                   a_message =
                     [CHR 0xF0, CHR 0x9F, CHR 0x9A, CHR 0xA8] @ '' '' @ t_category threat
                       @ '' detected from '' @ t_source threat,
                   a_timestamp = d_now_alert d,
                   a_read = False,
                   a_actions_required = c_immediate_action threat_classification,
                   read_timestamp = None\<rparr>;
                s2 = s1\<lparr>system_alerts := system_alerts s1 @ [alert]\<rparr>;
                response_data2 =
                  response_data\<lparr>r_threat_detected := Some True,
                                 r_threat := Some threat, r_alert := Some alert\<rparr>
            in if c_immediate_action threat_classification
               then (response_data2, s2, [AutoStart (t_id threat)])
               else (response_data2, s2, []))
         else (response_data, s, []))"

record history_response =
  h_threats :: "threat list"
  h_total :: int

definition get_threat_history :: "int \<Rightarrow> store \<Rightarrow> history_response" where
  "get_threat_history limit s =
     \<lparr>h_threats = map (deref s) (slice_from (- limit) (threat_history s)),
      h_total = int (length (threat_history s))\<rparr>"

text \<open>The request body of \<open>/threats/{threat_id}/respond\<close>; \<open>action\<close> defaults to \<open>auto_mitigate\<close>.\<close>

record threat_response =
  tr_threat_id :: int
  tr_action :: string

record status_response =
  sr_status :: string
  sr_message :: string
  sr_response_type :: "string option"

definition respond_to_threat ::
  "int \<Rightarrow> threat_response \<Rightarrow> string \<Rightarrow> store \<Rightarrow> http_error + status_response \<times> store \<times> task list" where
  "respond_to_threat threat_id response now s =
     (case find_threat s threat_id of
        None \<Rightarrow> Inl (HTTPException 404 ''Threat not found'')
      | Some r \<Rightarrow>
          if t_status (deref s r) \<noteq> ''active''
          then Inl (HTTPException 400 ''Threat is not active'')
          else Inr
            (\<lparr>sr_status = ''success'',
              sr_message = ''Automated response initiated for threat '' @ str_of_int threat_id,
              sr_response_type = Some (tr_action response)\<rparr>,
             upd_threat r
               (\<lambda>t. t\<lparr>t_status := ''responding'',
                      response_initiated := Some now,
                      response_type := Some (tr_action response)\<rparr>) s,
             [PlaybookStart threat_id (tr_action response)]))"

definition mark_alert_read :: "int \<Rightarrow> string \<Rightarrow> store \<Rightarrow> http_error + status_response \<times> store" where
  "mark_alert_read alert_id now s =
     (case first_index (\<lambda>a. a_id a = alert_id) (system_alerts s) of
        None \<Rightarrow> Inl (HTTPException 404 ''Alert not found'')
      | Some i \<Rightarrow>
          Inr (\<lparr>sr_status = ''success'', sr_message = ''Alert marked as read'',
                sr_response_type = None\<rparr>,
               s\<lparr>system_alerts :=
                   (system_alerts s)[i := (system_alerts s ! i)\<lparr>a_read := True,
                                                                 read_timestamp := Some now\<rparr>]\<rparr>))"

subsection \<open>The running application\<close>

text \<open>
  The state of the application: the module's storage and the background tasks that are
  scheduled and not finished. A handler runs without an \<open>await\<close>, hence in one step; a
  task runs one segment per step, and any scheduled task may be the next to run.
\<close>

record system =
  st :: store
  tasks :: "task list"

definition init :: system where
  "init = \<lparr>st = empty_store, tasks = []\<rparr>"

datatype event =
    Analyze log_entry draws
  | Respond int threat_response string
  | MarkRead int string
  | RunTask nat string

fun fire :: "event \<Rightarrow> system \<Rightarrow> system" where
  "fire (Analyze log_entry d) sys =
     (case analyze_log log_entry d (st sys) of
        (resp, s', new) \<Rightarrow> \<lparr>st = s', tasks = tasks sys @ new\<rparr>)"
| "fire (Respond threat_id response now) sys =
     (case respond_to_threat threat_id response now (st sys) of
        Inl err \<Rightarrow> sys
      | Inr (resp, s', new) \<Rightarrow> \<lparr>st = s', tasks = tasks sys @ new\<rparr>)"
| "fire (MarkRead alert_id now) sys =
     (case mark_alert_read alert_id now (st sys) of
        Inl err \<Rightarrow> sys
      | Inr (resp, s') \<Rightarrow> sys\<lparr>st := s'\<rparr>)"
| "fire (RunTask k now) sys =
     (if k < length (tasks sys) then
        (case run_task now (tasks sys ! k) (st sys) of
           (s', None) \<Rightarrow> \<lparr>st = s', tasks = take k (tasks sys) @ drop (Suc k) (tasks sys)\<rparr>
         | (s', Some t') \<Rightarrow> \<lparr>st = s', tasks = (tasks sys)[k := t']\<rparr>)
      else sys)"

text \<open>The application after a sequence of events, the first event first.\<close>

fun exec :: "event list \<Rightarrow> system \<Rightarrow> system" where
  "exec [] sys = sys"
| "exec (e # es) sys = exec es (fire e sys)"

text \<open>The threats and the status of a threat, as \<open>active_threats\<close> shows them.\<close>

definition threats :: "system \<Rightarrow> threat list" where
  "threats sys = map (deref (st sys)) (active_threats (st sys))"

definition history :: "system \<Rightarrow> threat list" where
  "history sys = map (deref (st sys)) (threat_history (st sys))"

definition status_of :: "system \<Rightarrow> int \<Rightarrow> string option" where
  "status_of sys threat_id =
     map_option (\<lambda>r. t_status (deref (st sys) r)) (find_threat (st sys) threat_id)"

subsection \<open>The specification's reading of the score\<close>

text \<open>
  The score as the specification words it: the base, 0.3 for each keyword of the
  vocabulary that occurs in the message without regard to case, the increment of the
  level and the noise, clamped above at 1.
\<close>

definition spec_level_increment :: "string \<Rightarrow> real" where
  "spec_level_increment lvl =
     (if lvl = ''CRITICAL'' then 0.4 else if lvl = ''ERROR'' then 0.3
      else if lvl = ''WARN'' then 0.2 else 0.1)"

definition spec_keyword_hits :: "string \<Rightarrow> nat" where
  "spec_keyword_hits msg =
     card {k \<in> set risk_patterns. sublist (str_lower k) (str_lower msg)}"

definition spec_score :: "real \<Rightarrow> log_entry \<Rightarrow> real" where
  "spec_score noise e =
     min (0.1 + 0.3 * real (spec_keyword_hits (message e))
            + spec_level_increment (level e) + noise) 1"

subsection \<open>Invariants of the storage and of the scheduled tasks\<close>

text \<open>
  The storage is well formed when both lists hold every reference of the heap in the
  order of creation, and the threat and the alert at position \<open>k\<close> carry the id \<open>k + 1\<close>.
\<close>

definition wf_store :: "store \<Rightarrow> bool" where
  "wf_store s \<longleftrightarrow>
     active_threats s = [0..<length (heap s)]
   \<and> threat_history s = [0..<length (heap s)]
   \<and> map t_id (heap s) = map (\<lambda>k. int k + 1) [0..<length (heap s)]
   \<and> map a_id (system_alerts s) = map (\<lambda>k. int k + 1) [0..<length (system_alerts s)]"

text \<open>The categories that \<open>classify_threat\<close> draws from when it sets \<open>immediate_action\<close>.\<close>

definition immediate_categories :: "string list" where
  "immediate_categories =
     [''APT'', ''Zero-day'', ''Data Breach'', ''DDoS'', ''Malware'', ''Brute Force'']"

text \<open>
  What holds of every scheduled task: an automated response that has not started finds
  its threat, of one of the immediate categories, and no task is inside
  \<open>quarantine_email\<close>.
\<close>

fun task_inv :: "store \<Rightarrow> task \<Rightarrow> bool" where
  "task_inv s (AutoStart threat_id) =
     (case find_threat s threat_id of
        None \<Rightarrow> False
      | Some r \<Rightarrow> t_category (deref s r) \<in> set immediate_categories)"
| "task_inv s (AutoQuarantine r) = False"
| "task_inv s (AutoBlockIp r) = True"
| "task_inv s (AutoIsolate r) = True"
| "task_inv s (AutoComplete r) = True"
| "task_inv s (PlaybookStart threat_id action_type) = True"
| "task_inv s (PlaybookSleep r action_type) = True"

text \<open>An event that creates a threat: a call of \<open>/analyze\<close> whose score exceeds 0.6.\<close>

fun creates_threat :: "event \<Rightarrow> bool" where
  "creates_threat (Analyze log_entry d) = (detect_anomaly (d_uniform d) log_entry > 0.6)"
| "creates_threat (Respond threat_id response now) = False"
| "creates_threat (MarkRead alert_id now) = False"
| "creates_threat (RunTask k now) = False"

subsection \<open>Concrete inputs\<close>

definition brute_force_entry :: log_entry where
  "brute_force_entry =
     \<lparr>source = ''fw1'', level = ''CRITICAL'',
      message = ''brute force attack detected'', metadata = None\<rparr>"

definition login_entry :: log_entry where
  "login_entry =
     \<lparr>source = ''app'', level = ''INFO'', message = ''user logged in'', metadata = None\<rparr>"

definition fixed_draws :: draws where
  "fixed_draws =
     \<lparr>d_uniform = 0, d_choice = 0, d_now_log = ''t0'', d_now_threat = ''t0'',
      d_now_alert = ''t0''\<rparr>"

definition auto_mitigate :: threat_response where
  "auto_mitigate = \<lparr>tr_threat_id = 1, tr_action = ''auto_mitigate''\<rparr>"

section \<open>The scorer\<close>

subsection \<open>Substrings and the keyword loop\<close>

lemma str_contains_sublist: "str_contains s p = sublist p s"
  by (induction s) (auto simp: sublist_Cons_right)

lemma scan_patterns_count:
  "scan_patterns ps m score = score + 0.3 * real (length (filter (str_contains m) ps))"
  by (induction ps arbitrary: score) (auto simp: algebra_simps)

lemma risk_patterns_distinct: "distinct risk_patterns"
  by (simp add: risk_patterns_def)

lemma risk_patterns_lower: "k \<in> set risk_patterns \<Longrightarrow> str_lower k = k"
  by (auto simp: risk_patterns_def str_lower_def lower_char_def)

lemma keyword_hits_filter:
  "spec_keyword_hits msg = length (filter (str_contains (str_lower msg)) risk_patterns)"
proof -
  have "{k \<in> set risk_patterns. sublist (str_lower k) (str_lower msg)}
        = set (filter (str_contains (str_lower msg)) risk_patterns)"
    by (auto simp: str_contains_sublist risk_patterns_lower)
  moreover have "distinct (filter (str_contains (str_lower msg)) risk_patterns)"
    using risk_patterns_distinct by simp
  ultimately show ?thesis
    unfolding spec_keyword_hits_def using distinct_card by fastforce
qed

lemma level_scores_increment: "dict_get level_scores lvl 0.1 = spec_level_increment lvl"
  by (simp add: dict_get_def level_scores_def spec_level_increment_def)

lemma level_increment_pos: "0 < spec_level_increment lvl"
  by (simp add: spec_level_increment_def)

text \<open>
  Claim C2. For every log event the anomaly score is the base 0.1, plus 0.3 for each of
  the eight risk keywords that occurs in the message without regard to case (a keyword
  counts once, however often it occurs), plus the increment of the level (CRITICAL 0.4,
  ERROR 0.3, WARN 0.2, any other level 0.1), plus a random perturbation in \<open>[0, 0.2)\<close>,
  clamped above at 1; so the score lies in \<open>[0, 1]\<close>. Here \<open>u\<close> is the value of
  \<open>random()\<close>, drawn from \<open>[0, 1)\<close>.
\<close>

theorem detect_anomaly_score:
  assumes "0 \<le> u" and "u < 1"
  shows "detect_anomaly u e = spec_score (random_uniform 0 0.2 u) e
       \<and> 0 \<le> random_uniform 0 0.2 u \<and> random_uniform 0 0.2 u < 0.2
       \<and> 0 \<le> detect_anomaly u e \<and> detect_anomaly u e \<le> 1"
proof -
  have noise: "0 \<le> random_uniform 0 0.2 u" "random_uniform 0 0.2 u < 0.2"
    using assms by (simp_all add: random_uniform_def)
  have eq: "detect_anomaly u e = spec_score (random_uniform 0 0.2 u) e"
    by (simp add: detect_anomaly_def spec_score_def Let_def scan_patterns_count
        keyword_hits_filter level_scores_increment)
  have "0 \<le> spec_score (random_uniform 0 0.2 u) e"
    using noise(1) level_increment_pos [of "level e"] by (simp add: spec_score_def)
  moreover have "spec_score (random_uniform 0 0.2 u) e \<le> 1"
    by (simp add: spec_score_def)
  ultimately show ?thesis using noise eq by simp
qed

theorem detect_anomaly_score_witness:
  "(0::real) \<le> 1/2 \<and> (1/2::real) < 1
   \<and> detect_anomaly (1/2) \<lparr>source = ''fw1'', level = ''ERROR'',
        message = ''SQL Injection and malware, malware'', metadata = None\<rparr> = 1
   \<and> detect_anomaly (1/2) \<lparr>source = ''app'', level = ''INFO'',
        message = ''user logged in'', metadata = None\<rparr> = 0.3
   \<and> spec_keyword_hits ''SQL Injection and malware, malware'' = 2"
proof -
  have h: "(0::real) \<le> 1/2" "(1/2::real) < 1" by simp_all
  have a: "detect_anomaly (1/2) \<lparr>source = ''fw1'', level = ''ERROR'',
        message = ''SQL Injection and malware, malware'', metadata = None\<rparr> = 1"
    by code_simp
  have b: "detect_anomaly (1/2) \<lparr>source = ''app'', level = ''INFO'',
        message = ''user logged in'', metadata = None\<rparr> = 0.3"
    by code_simp
  have c: "spec_keyword_hits ''SQL Injection and malware, malware'' = 2"
    unfolding keyword_hits_filter by code_simp
  show ?thesis
    using detect_anomaly_score [OF h, of "\<lparr>source = ''fw1'', level = ''ERROR'',
        message = ''SQL Injection and malware, malware'', metadata = None\<rparr>"] a b c
    by simp
qed

subsection \<open>Classification\<close>

lemma random_choice_in: "seq \<noteq> [] \<Longrightarrow> random_choice rnd seq \<in> set seq"
  by (simp add: random_choice_def)

text \<open>
  Claim C6. Apart from the draw of the category, the classification is a threshold map
  of the score: above 0.9 critical, risk 5, immediate, category among APT, Zero-day and
  Data Breach; above 0.7 and at most 0.9 high, risk 4, immediate, category among DDoS,
  Malware and Brute Force; above 0.5 and at most 0.7 medium, risk 3, not immediate,
  category Phishing or Policy Violation; at most 0.5 low, risk 1, not immediate,
  category Informational.
\<close>

theorem classify_threat_thresholds:
  "(score > 0.9 \<longrightarrow>
      c_severity (classify_threat rnd score src) = ''critical''
    \<and> c_risk_level (classify_threat rnd score src) = 5
    \<and> c_immediate_action (classify_threat rnd score src)
    \<and> c_category (classify_threat rnd score src) \<in> {''APT'', ''Zero-day'', ''Data Breach''})
 \<and> (0.7 < score \<and> score \<le> 0.9 \<longrightarrow>
      c_severity (classify_threat rnd score src) = ''high''
    \<and> c_risk_level (classify_threat rnd score src) = 4
    \<and> c_immediate_action (classify_threat rnd score src)
    \<and> c_category (classify_threat rnd score src) \<in> {''DDoS'', ''Malware'', ''Brute Force''})
 \<and> (0.5 < score \<and> score \<le> 0.7 \<longrightarrow>
      c_severity (classify_threat rnd score src) = ''medium''
    \<and> c_risk_level (classify_threat rnd score src) = 3
    \<and> \<not> c_immediate_action (classify_threat rnd score src)
    \<and> c_category (classify_threat rnd score src) \<in> {''Phishing'', ''Policy Violation''})
 \<and> (score \<le> 0.5 \<longrightarrow>
      c_severity (classify_threat rnd score src) = ''low''
    \<and> c_risk_level (classify_threat rnd score src) = 1
    \<and> \<not> c_immediate_action (classify_threat rnd score src)
    \<and> c_category (classify_threat rnd score src) = ''Informational'')"
  using random_choice_in [of "[''APT'', ''Zero-day'', ''Data Breach'']" rnd]
    random_choice_in [of "[''DDoS'', ''Malware'', ''Brute Force'']" rnd]
    random_choice_in [of "[''Phishing'', ''Policy Violation'']" rnd]
  by (simp add: classify_threat_def)

theorem classify_threat_thresholds_witness:
  "c_severity (classify_threat 4 0.95 ''fw1'') = ''critical''
   \<and> c_category (classify_threat 4 0.95 ''fw1'') = ''Zero-day''
   \<and> c_severity (classify_threat 4 0.9 ''fw1'') = ''high''
   \<and> c_category (classify_threat 4 0.9 ''fw1'') = ''Malware''
   \<and> c_severity (classify_threat 4 0.7 ''fw1'') = ''medium''
   \<and> c_category (classify_threat 4 0.7 ''fw1'') = ''Phishing''
   \<and> c_severity (classify_threat 4 0.5 ''fw1'') = ''low''
   \<and> c_category (classify_threat 4 0.5 ''fw1'') = ''Informational''"
proof -
  have cats: "c_category (classify_threat 4 0.95 ''fw1'') = ''Zero-day''"
    "c_category (classify_threat 4 0.9 ''fw1'') = ''Malware''"
    "c_category (classify_threat 4 0.7 ''fw1'') = ''Phishing''"
    by code_simp+
  show ?thesis
    using classify_threat_thresholds [of "0.95" 4 "''fw1''"]
      classify_threat_thresholds [of "0.9" 4 "''fw1''"]
      classify_threat_thresholds [of "0.7" 4 "''fw1''"]
      classify_threat_thresholds [of "0.5" 4 "''fw1''"]
      cats
    by simp
qed

section \<open>The storage and the tasks\<close>

subsection \<open>Well-formed storage\<close>

lemma wf_empty_store: "wf_store empty_store"
  by (simp add: wf_store_def empty_store_def)

lemma find_append: "find P (xs @ ys) = (case find P xs of None \<Rightarrow> find P ys | Some x \<Rightarrow> Some x)"
  by (induction xs) auto

lemma find_upt_id:
  "find (\<lambda>r. int r + 1 = i) [0..<n] = (if 1 \<le> i \<and> i \<le> int n then Some (nat (i - 1)) else None)"
  by (induction n) (auto simp: find_append)

lemma map_update_same:
  "(\<And>x. g (f x) = g x) \<Longrightarrow> map g (xs[k := f (xs ! k)]) = map g xs"
  by (induction xs arbitrary: k) (auto split: nat.splits)

lemma wf_t_id: "wf_store s \<Longrightarrow> r < length (heap s) \<Longrightarrow> t_id (heap s ! r) = int r + 1"
proof -
  assume wf: "wf_store s" and r: "r < length (heap s)"
  have "map t_id (heap s) ! r = map (\<lambda>k. int k + 1) [0..<length (heap s)] ! r"
    using wf by (simp add: wf_store_def)
  then show ?thesis using r by simp
qed

lemma find_threat_wf:
  assumes "wf_store s"
  shows "find_threat s i =
           (if 1 \<le> i \<and> i \<le> int (length (heap s)) then Some (nat (i - 1)) else None)"
proof -
  have "find (\<lambda>r. t_id (deref s r) = i) [0..<length (heap s)]
        = find (\<lambda>r. int r + 1 = i) [0..<length (heap s)]"
    by (rule find_cong) (auto simp: deref_def wf_t_id [OF assms])
  then show ?thesis
    using assms by (simp add: find_threat_def wf_store_def find_upt_id)
qed

lemma wf_upd_threat:
  assumes "wf_store s" and "\<And>t. t_id (f t) = t_id t"
  shows "wf_store (upd_threat r f s)"
proof -
  have "map t_id ((heap s)[r := f (heap s ! r)]) = map t_id (heap s)"
    by (rule map_update_same) (rule assms(2))
  then show ?thesis using assms(1) by (simp add: wf_store_def upd_threat_def)
qed

lemma wf_analyze_log: 
  assumes "wf_store s"
  shows "wf_store (fst (snd (analyze_log e d s)))"
  using assms by (simp add: analyze_log_def Let_def wf_store_def)

lemma wf_respond:
  assumes "wf_store s" and "respond_to_threat i body now s = Inr (resp, s', new)"
  shows "wf_store s'"
  using assms by (auto simp: respond_to_threat_def wf_upd_threat split: option.splits if_splits)

lemma wf_mark_alert_read:
  assumes "wf_store s" and "mark_alert_read i now s = Inr (resp, s')"
  shows "wf_store s'"
proof -
  have "map a_id ((system_alerts s)[k := (system_alerts s ! k)\<lparr>a_read := True, read_timestamp := Some now\<rparr>])
        = map a_id (system_alerts s)" for k
    by (rule map_update_same) simp
  then show ?thesis
    using assms by (auto simp: mark_alert_read_def wf_store_def split: option.splits)
qed

lemma wf_run_task:
  assumes "wf_store s"
  shows "wf_store (fst (run_task now t s))"
  using assms
  by (cases t)
    (auto simp: wf_upd_threat Let_def block_ip_address_def isolate_system_def
      quarantine_email_def append_action_def split: option.splits)

lemma wf_fire: "wf_store (st sys) \<Longrightarrow> wf_store (st (fire e sys))"
proof (cases e)
  case (Analyze le d)
  assume "wf_store (st sys)"
  from wf_analyze_log [OF this, of le d] Analyze show ?thesis
    by (cases "analyze_log le d (st sys)") simp
next
  case (Respond i body now)
  assume "wf_store (st sys)"
  with Respond show ?thesis
    by (auto split: sum.splits dest: wf_respond)
next
  case (MarkRead i now)
  assume "wf_store (st sys)"
  with MarkRead show ?thesis
    by (auto split: sum.splits dest: wf_mark_alert_read)
next
  case (RunTask k now)
  assume wf: "wf_store (st sys)"
  from wf wf_run_task [OF wf, of now "tasks sys ! k"] RunTask show ?thesis
    by (auto split: prod.splits option.splits)
qed

lemma wf_exec: "wf_store (st sys) \<Longrightarrow> wf_store (st (exec es sys))"
  by (induction es arbitrary: sys) (auto simp: wf_fire)

lemma wf_exec_init: "wf_store (st (exec es init))"
  by (rule wf_exec) (simp add: init_def wf_empty_store)


subsection \<open>Tasks\<close>

lemma immediate_category:
  "c_immediate_action (classify_threat rnd score src) \<Longrightarrow>
   c_category (classify_threat rnd score src) \<in> set immediate_categories"
  using random_choice_in [of "[''APT'', ''Zero-day'', ''Data Breach'']" rnd]
    random_choice_in [of "[''DDoS'', ''Malware'', ''Brute Force'']" rnd]
  by (auto simp: classify_threat_def immediate_categories_def split: if_splits)

lemma task_inv_upd_threat:
  assumes wf: "wf_store s" and id: "\<And>t. t_id (f t) = t_id t"
    and cat: "\<And>t. t_category (f t) = t_category t" and inv: "task_inv s t"
  shows "task_inv (upd_threat r f s) t"
proof (cases t)
  case (AutoStart i)
  have wf': "wf_store (upd_threat r f s)" by (rule wf_upd_threat [OF wf id])
  have len: "length (heap (upd_threat r f s)) = length (heap s)"
    by (simp add: upd_threat_def)
  have same: "find_threat (upd_threat r f s) i = find_threat s i"
    by (simp add: find_threat_wf [OF wf] find_threat_wf [OF wf'] len)
  have "t_category (deref (upd_threat r f s) q) = t_category (deref s q)" for q
    by (cases "r < length (heap s)"; cases "q = r")
      (simp_all add: deref_def upd_threat_def cat list_update_beyond)
  with inv AutoStart same show ?thesis by (simp split: option.splits)
qed (use inv in simp_all)

lemma find_threat_Some_lt:
  "wf_store s \<Longrightarrow> find_threat s i = Some r \<Longrightarrow> r < length (heap s) \<and> i = int r + 1"
  by (auto simp: find_threat_wf split: if_splits)

lemma task_inv_analyze_log:
  assumes wf: "wf_store s" and inv: "task_inv s t"
  shows "task_inv (fst (snd (analyze_log e d s))) t"
proof (cases t)
  case (AutoStart i)
  from inv AutoStart obtain r where r: "find_threat s i = Some r"
    and c: "t_category (deref s r) \<in> set immediate_categories"
    by (auto split: option.splits)
  have lt: "r < length (heap s)" "i = int r + 1"
    using find_threat_Some_lt [OF wf r] by simp_all
  have wf': "wf_store (fst (snd (analyze_log e d s)))" by (rule wf_analyze_log [OF wf])
  have len: "length (heap s) \<le> length (heap (fst (snd (analyze_log e d s))))"
    by (simp add: analyze_log_def Let_def)
  have r': "find_threat (fst (snd (analyze_log e d s))) i = Some r"
    using lt len by (simp add: find_threat_wf [OF wf'])
  have "deref (fst (snd (analyze_log e d s))) r = deref s r"
    using lt by (simp add: analyze_log_def Let_def deref_def nth_append)
  with c r' AutoStart show ?thesis by simp
qed (use inv in simp_all)

lemma new_tasks_analyze_log:
  assumes wf: "wf_store s" and t: "t \<in> set (snd (snd (analyze_log e d s)))"
  shows "task_inv (fst (snd (analyze_log e d s))) t"
proof -
  let ?score = "detect_anomaly (d_uniform d) e"
  let ?c = "classify_threat (d_choice d) ?score (source e)"
  from t have hi: "?score > 0.6" and imm: "c_immediate_action ?c"
    and teq: "t = AutoStart (int (length (heap s)) + 1)"
    using wf by (auto simp: analyze_log_def Let_def wf_store_def split: if_splits)
  have wf': "wf_store (fst (snd (analyze_log e d s)))" by (rule wf_analyze_log [OF wf])
  have len: "length (heap (fst (snd (analyze_log e d s)))) = Suc (length (heap s))"
    using hi by (simp add: analyze_log_def Let_def)
  have f: "find_threat (fst (snd (analyze_log e d s))) (int (length (heap s)) + 1)
           = Some (length (heap s))"
    by (simp add: find_threat_wf [OF wf'] len)
  have "t_category (deref (fst (snd (analyze_log e d s))) (length (heap s))) = c_category ?c"
    using hi by (simp add: analyze_log_def Let_def deref_def)
  with f teq immediate_category [OF imm] show ?thesis by simp
qed


lemma task_inv_respond:
  assumes "wf_store s" and "respond_to_threat i body now s = Inr (resp, s', new)"
    and "task_inv s t"
  shows "task_inv s' t"
  using assms
  by (auto simp: respond_to_threat_def task_inv_upd_threat split: option.splits if_splits)

lemma new_tasks_respond:
  assumes "respond_to_threat i body now s = Inr (resp, s', new)" and "t \<in> set new"
  shows "task_inv s' t"
  using assms by (auto simp: respond_to_threat_def split: option.splits if_splits)

lemma task_inv_mark_alert_read:
  assumes "mark_alert_read i now s = Inr (resp, s')" and "task_inv s t"
  shows "task_inv s' t"
proof -
  from assms(1) have "heap s' = heap s" "active_threats s' = active_threats s"
    by (auto simp: mark_alert_read_def split: option.splits)
  then have "find_threat s' = find_threat s" "deref s' = deref s"
    by (simp_all add: find_threat_def deref_def fun_eq_iff cong: find_cong)
  with assms(2) show ?thesis by (cases t) (simp_all split: option.splits)
qed

lemma task_inv_run_task_store:
  assumes "wf_store s" and "task_inv s t"
  shows "task_inv (fst (run_task now t0 s)) t"
  using assms
  by (cases t0)
    (auto simp: task_inv_upd_threat Let_def block_ip_address_def isolate_system_def
      quarantine_email_def append_action_def split: option.splits)

lemma category_upd_status:
  "t_category (deref (upd_threat r (\<lambda>t. t\<lparr>t_status := v, auto_response_started := w\<rparr>) s) r)
   = t_category (deref s r)"
  by (cases "r < length (heap s)") (simp_all add: deref_def upd_threat_def list_update_beyond)

lemma task_inv_run_task_cont:
  assumes "task_inv s t0" and "run_task now t0 s = (s', Some t')"
  shows "task_inv s' t'"
proof (cases t0)
  case (AutoStart i)
  with assms(1) obtain r where r: "find_threat s i = Some r"
    and c: "t_category (deref s r) \<in> set immediate_categories"
    by (auto split: option.splits)
  from c have "t_category (deref s r) \<noteq> ''Phishing''"
    by (auto simp: immediate_categories_def)
  with assms(2) AutoStart r show ?thesis
    by (auto simp: Let_def category_upd_status split: if_splits)
qed (use assms in \<open>auto simp: Let_def split: option.splits\<close>)

subsection \<open>The invariant of the running application\<close>

lemma tasks_inv_fire:
  assumes wf: "wf_store (st sys)" and inv: "list_all (task_inv (st sys)) (tasks sys)"
  shows "list_all (task_inv (st (fire e sys))) (tasks (fire e sys))"
proof (cases e)
  case (Analyze le d)
  obtain resp s' new where a: "analyze_log le d (st sys) = (resp, s', new)"
    by (cases "analyze_log le d (st sys)") auto
  have "task_inv s' t" if "t \<in> set (tasks sys)" for t
    using task_inv_analyze_log [OF wf, of t le d] inv that a by (simp add: list_all_iff)
  moreover have "task_inv s' t" if "t \<in> set new" for t
    using new_tasks_analyze_log [OF wf, of t le d] that a by simp
  ultimately show ?thesis using Analyze a by (auto simp: list_all_iff)
next
  case (Respond i body now)
  show ?thesis
  proof (cases "respond_to_threat i body now (st sys)")
    case (Inl err)
    with Respond inv show ?thesis by simp
  next
    case (Inr res)
    then obtain resp s' new where r: "respond_to_threat i body now (st sys) = Inr (resp, s', new)"
      by (cases res) auto
    have "task_inv s' t" if "t \<in> set (tasks sys)" for t
      using task_inv_respond [OF wf r] inv that by (simp add: list_all_iff)
    moreover have "task_inv s' t" if "t \<in> set new" for t
      using new_tasks_respond [OF r that] .
    ultimately show ?thesis using Respond r by (auto simp: list_all_iff)
  qed
next
  case (MarkRead i now)
  show ?thesis
  proof (cases "mark_alert_read i now (st sys)")
    case (Inl err)
    with MarkRead inv show ?thesis by simp
  next
    case (Inr res)
    then obtain resp s' where r: "mark_alert_read i now (st sys) = Inr (resp, s')"
      by (cases res) auto
    have "task_inv s' t" if "t \<in> set (tasks sys)" for t
      using task_inv_mark_alert_read [OF r] inv that by (simp add: list_all_iff)
    then show ?thesis using MarkRead r by (auto simp: list_all_iff)
  qed
next
  case (RunTask k now)
  show ?thesis
  proof (cases "k < length (tasks sys)")
    case False
    with RunTask inv show ?thesis by simp
  next
    case True
    obtain s' c where r: "run_task now (tasks sys ! k) (st sys) = (s', c)"
      by (cases "run_task now (tasks sys ! k) (st sys)") auto
    have old: "task_inv s' t" if "t \<in> set (tasks sys)" for t
      using task_inv_run_task_store [OF wf, of t now "tasks sys ! k"] inv that r
      by (simp add: list_all_iff)
    have k: "task_inv (st sys) (tasks sys ! k)"
      using inv True by (simp add: list_all_length)
    show ?thesis
    proof (cases c)
      case None
      have "set (take k (tasks sys) @ drop (Suc k) (tasks sys)) \<subseteq> set (tasks sys)"
        using set_take_subset set_drop_subset by fastforce
      with old RunTask True r None show ?thesis
        by (auto simp: list_all_iff)
    next
      case (Some t')
      have "task_inv s' t'" using task_inv_run_task_cont [OF k] r Some by simp
      moreover have "set ((tasks sys)[k := t']) \<subseteq> insert t' (set (tasks sys))"
        by (rule set_update_subset_insert)
      ultimately show ?thesis using old RunTask True r Some
        by (auto simp: list_all_iff)
    qed
  qed
qed

lemma inv_exec:
  "wf_store (st sys) \<Longrightarrow> list_all (task_inv (st sys)) (tasks sys) \<Longrightarrow>
   list_all (task_inv (st (exec es sys))) (tasks (exec es sys))"
  by (induction es arbitrary: sys) (auto simp: wf_fire tasks_inv_fire)

lemma inv_exec_init: "list_all (task_inv (st (exec es init))) (tasks (exec es init))"
  by (rule inv_exec) (simp_all add: init_def wf_empty_store)

text \<open>
  Claim C10. The email-quarantine step never runs in an execution of the application:
  no scheduled task is ever inside \<open>quarantine_email\<close>, and no scheduled task enters it
  in its next segment. The automated response is scheduled only for a classification
  with \<open>immediate_action\<close>, which draws the category from APT, Zero-day, Data Breach,
  DDoS, Malware and Brute Force, so the threat that a waiting automated response finds
  is never of category Phishing, the only one that dispatches the quarantine.
\<close>

theorem quarantine_email_never_runs:
  assumes "t \<in> set (tasks (exec es init))"
  shows "t \<noteq> AutoQuarantine r
       \<and> snd (run_task now t (st (exec es init))) \<noteq> Some (AutoQuarantine r)
       \<and> (t = AutoStart i \<longrightarrow>
            (\<exists>q. find_threat (st (exec es init)) i = Some q
               \<and> t_category (deref (st (exec es init)) q) \<in> set immediate_categories
               \<and> t_category (deref (st (exec es init)) q) \<noteq> ''Phishing''))"
proof -
  let ?s = "st (exec es init)"
  have inv: "task_inv ?s t"
    using inv_exec_init [of es] assms by (simp add: list_all_iff)
  have 1: "t \<noteq> AutoQuarantine r" using inv by auto
  have 2: "snd (run_task now t ?s) \<noteq> Some (AutoQuarantine r)"
  proof
    assume "snd (run_task now t ?s) = Some (AutoQuarantine r)"
    then have "run_task now t ?s = (fst (run_task now t ?s), Some (AutoQuarantine r))"
      by (metis prod.collapse)
    from task_inv_run_task_cont [OF inv this] show False by simp
  qed
  have 3: "\<exists>q. find_threat ?s i = Some q
             \<and> t_category (deref ?s q) \<in> set immediate_categories
             \<and> t_category (deref ?s q) \<noteq> ''Phishing''" if "t = AutoStart i"
    using inv that by (auto simp: immediate_categories_def split: option.splits)
  from 1 2 3 show ?thesis by blast
qed

theorem quarantine_email_never_runs_witness:
  "AutoStart 1 \<in> set (tasks (exec [Analyze brute_force_entry fixed_draws] init))
   \<and> snd (run_task ''t1'' (AutoStart 1) (st (exec [Analyze brute_force_entry fixed_draws] init)))
       \<noteq> Some (AutoQuarantine 0)
   \<and> find_threat (st (exec [Analyze brute_force_entry fixed_draws] init)) 1 = Some 0
   \<and> t_category (deref (st (exec [Analyze brute_force_entry fixed_draws] init)) 0) = ''DDoS''"
proof -
  have a: "AutoStart 1 \<in> set (tasks (exec [Analyze brute_force_entry fixed_draws] init))"
    by code_simp
  have b: "find_threat (st (exec [Analyze brute_force_entry fixed_draws] init)) 1 = Some 0"
    by code_simp
  have c: "t_category (deref (st (exec [Analyze brute_force_entry fixed_draws] init)) 0) = ''DDoS''"
    by code_simp
  from quarantine_email_never_runs [OF a, of 0 "''t1''" 1] a b c show ?thesis by blast
qed

section \<open>Log ids\<close>

lemma history_length_fire:
  "length (threat_history (st (fire ev sys)))
   = length (threat_history (st sys)) + (if creates_threat ev then 1 else 0)"
proof (cases ev)
  case (Analyze le d)
  then show ?thesis by (simp add: analyze_log_def Let_def)
next
  case (Respond i body now)
  then show ?thesis
    by (auto simp: respond_to_threat_def upd_threat_def split: option.splits)
next
  case (MarkRead i now)
  then show ?thesis by (auto simp: mark_alert_read_def split: option.splits)
next
  case (RunTask k now)
  have "threat_history (fst (run_task now t s)) = threat_history s" for t s
    by (cases t)
      (auto simp: upd_threat_def Let_def block_ip_address_def isolate_system_def
        quarantine_email_def split: option.splits)
  from this [of "tasks sys ! k" "st sys"] RunTask show ?thesis
    by (auto split: prod.splits option.splits)
qed

lemma history_length_exec:
  "length (threat_history (st (exec es sys)))
   = length (threat_history (st sys)) + length (filter creates_threat es)"
  by (induction es arbitrary: sys) (simp_all add: history_length_fire)

text \<open>
  Claim C9. The log id that \<open>/analyze\<close> returns is the number of threats created so
  far plus one, not a counter of calls: a call that creates no threat (score at most
  0.6) and the call after it return the same log id, so log ids are not unique.
\<close>

theorem log_id_counts_threats:
  "r_log_id (fst (analyze_log e d (st (exec es init))))
     = int (length (filter creates_threat es)) + 1
   \<and> (\<not> creates_threat (Analyze e d) \<longrightarrow>
        r_log_id (fst (analyze_log e' d' (st (fire (Analyze e d) (exec es init)))))
          = r_log_id (fst (analyze_log e d (st (exec es init)))))"
proof -
  have log_id: "r_log_id (fst (analyze_log le dr s)) = int (length (threat_history s)) + 1"
    for le dr s
    by (simp add: analyze_log_def Let_def)
  have "length (threat_history (st (exec es init))) = length (filter creates_threat es)"
    using history_length_exec [of es init] by (simp add: init_def empty_store_def)
  then show ?thesis
    by (simp add: log_id history_length_fire del: fire.simps)
qed

theorem log_id_counts_threats_witness:
  "\<not> creates_threat (Analyze login_entry fixed_draws)
   \<and> \<not> creates_threat (Analyze login_entry (fixed_draws\<lparr>d_now_log := ''t1''\<rparr>))
   \<and> r_log_id (fst (analyze_log login_entry fixed_draws (st (exec [Analyze brute_force_entry fixed_draws] init)))) = 2
   \<and> r_log_id (fst (analyze_log login_entry (fixed_draws\<lparr>d_now_log := ''t1''\<rparr>)
        (st (fire (Analyze login_entry fixed_draws) (exec [Analyze brute_force_entry fixed_draws] init))))) = 2"
proof -
  have a: "\<not> creates_threat (Analyze login_entry fixed_draws)" by code_simp
  have b: "\<not> creates_threat (Analyze login_entry (fixed_draws\<lparr>d_now_log := ''t1''\<rparr>))" by code_simp
  have c: "length (filter creates_threat [Analyze brute_force_entry fixed_draws]) = 1"
    by code_simp
  show ?thesis
    using log_id_counts_threats [of login_entry fixed_draws "[Analyze brute_force_entry fixed_draws]"
        login_entry "fixed_draws\<lparr>d_now_log := ''t1''\<rparr>"] a b c
    by simp
qed

section \<open>Identifiers\<close>

lemma heap_length_fire: "length (heap (st sys)) \<le> length (heap (st (fire ev sys)))"
proof (cases ev)
  case (Analyze le d)
  then show ?thesis by (simp add: analyze_log_def Let_def)
next
  case (Respond i body now)
  then show ?thesis
    by (auto simp: respond_to_threat_def upd_threat_def split: option.splits)
next
  case (MarkRead i now)
  then show ?thesis by (auto simp: mark_alert_read_def split: option.splits)
next
  case (RunTask k now)
  have "length (heap (fst (run_task now t s))) = length (heap s)" for t s
    by (cases t)
      (auto simp: upd_threat_def Let_def block_ip_address_def isolate_system_def
        quarantine_email_def split: option.splits)
  from this [of "tasks sys ! k" "st sys"] RunTask show ?thesis
    by (auto split: prod.splits option.splits)
qed

lemma alerts_length_fire:
  "length (system_alerts (st sys)) \<le> length (system_alerts (st (fire ev sys)))"
proof (cases ev)
  case (Analyze le d)
  then show ?thesis by (simp add: analyze_log_def Let_def)
next
  case (Respond i body now)
  then show ?thesis
    by (auto simp: respond_to_threat_def upd_threat_def split: option.splits)
next
  case (MarkRead i now)
  then show ?thesis by (auto simp: mark_alert_read_def split: option.splits)
next
  case (RunTask k now)
  have "system_alerts (fst (run_task now t s)) = system_alerts s" for t s
    by (cases t)
      (auto simp: upd_threat_def Let_def block_ip_address_def isolate_system_def
        quarantine_email_def split: option.splits)
  from this [of "tasks sys ! k" "st sys"] RunTask show ?thesis
    by (auto split: prod.splits option.splits)
qed

lemma lengths_exec:
  "length (heap (st sys)) \<le> length (heap (st (exec es sys)))
   \<and> length (system_alerts (st sys)) \<le> length (system_alerts (st (exec es sys)))"
proof (induction es arbitrary: sys)
  case Nil
  show ?case by simp
next
  case (Cons ev es)
  from Cons [of "fire ev sys"] heap_length_fire [of sys ev] alerts_length_fire [of sys ev]
  show ?case by simp
qed

lemma exec_append: "exec (es @ es') sys = exec es' (exec es sys)"
  by (induction es arbitrary: sys) simp_all

lemma ids_prefix: "n \<le> m \<Longrightarrow> prefix (map (\<lambda>k. int k + 1) [0..<n]) (map (\<lambda>k. int k + 1) [0..<m])"
proof -
  assume "n \<le> m"
  then obtain k where "m = n + k" using le_Suc_ex by blast
  then have "[0..<m] = [0..<n] @ [n..<n + k]"
    using upt_add_eq_append [of 0 n k] by simp
  then show ?thesis by simp
qed

lemma ids_sorted: "sorted_wrt (<) (map (\<lambda>k. int k + 1) [0..<n])"
  by (induction n) (auto simp: sorted_wrt_append)

lemma deref_nth: "deref s = (!) (heap s)"
  by (simp add: fun_eq_iff deref_def)

lemma threats_wf: "wf_store (st sys) \<Longrightarrow> threats sys = heap (st sys)"
  by (simp add: threats_def wf_store_def deref_nth map_nth)

lemma history_wf: "wf_store (st sys) \<Longrightarrow> history sys = heap (st sys)"
  by (simp add: history_def wf_store_def deref_nth map_nth)

text \<open>
  Claim C4. After every sequence of events on the storage, started empty, the threats
  carry the ids 1, 2, 3, ... in the order of creation, in \<open>active_threats\<close> as in
  \<open>threat_history\<close>: the ids are unique and strictly increasing and start at 1. No id
  is reused: whatever happens later, the ids assigned so far stay where they are and new
  ones are appended. The same holds of the alerts, which are numbered on their own.
\<close>

theorem identifiers_unique_increasing:
  "map t_id (threats (exec es init))
     = map (\<lambda>k. int k + 1) [0..<length (threats (exec es init))]
   \<and> map t_id (history (exec es init))
     = map (\<lambda>k. int k + 1) [0..<length (history (exec es init))]
   \<and> map a_id (system_alerts (st (exec es init)))
     = map (\<lambda>k. int k + 1) [0..<length (system_alerts (st (exec es init)))]
   \<and> sorted_wrt (<) (map t_id (threats (exec es init)))
   \<and> distinct (map t_id (threats (exec es init)))
   \<and> sorted_wrt (<) (map a_id (system_alerts (st (exec es init))))
   \<and> distinct (map a_id (system_alerts (st (exec es init))))
   \<and> prefix (map t_id (threats (exec es init))) (map t_id (threats (exec (es @ es') init)))
   \<and> prefix (map a_id (system_alerts (st (exec es init))))
        (map a_id (system_alerts (st (exec (es @ es') init))))"
proof -
  let ?sys = "exec es init" and ?sys' = "exec (es @ es') init"
  have wf: "wf_store (st ?sys)" and wf': "wf_store (st ?sys')"
    by (rule wf_exec_init)+
  have t: "map t_id (threats ?sys) = map (\<lambda>k. int k + 1) [0..<length (threats ?sys)]"
    using wf by (simp add: threats_wf [OF wf] wf_store_def)
  have h: "map t_id (history ?sys) = map (\<lambda>k. int k + 1) [0..<length (history ?sys)]"
    using wf by (simp add: history_wf [OF wf] wf_store_def)
  have a: "map a_id (system_alerts (st ?sys))
           = map (\<lambda>k. int k + 1) [0..<length (system_alerts (st ?sys))]"
    using wf by (simp add: wf_store_def)
  have t': "map t_id (threats ?sys') = map (\<lambda>k. int k + 1) [0..<length (threats ?sys')]"
    using wf' by (simp add: threats_wf [OF wf'] wf_store_def)
  have a': "map a_id (system_alerts (st ?sys'))
           = map (\<lambda>k. int k + 1) [0..<length (system_alerts (st ?sys'))]"
    using wf' by (simp add: wf_store_def)
  have st: "sorted_wrt (<) (map t_id (threats ?sys))"
    by (subst t) (rule ids_sorted)
  have sa: "sorted_wrt (<) (map a_id (system_alerts (st ?sys)))"
    by (subst a) (rule ids_sorted)
  have dt: "distinct (map t_id (threats ?sys))"
    using st strict_sorted_iff by blast
  have da: "distinct (map a_id (system_alerts (st ?sys)))"
    using sa strict_sorted_iff by blast
  have len: "length (threats ?sys) \<le> length (threats ?sys')"
    "length (system_alerts (st ?sys)) \<le> length (system_alerts (st ?sys'))"
    using lengths_exec [of ?sys es'] unfolding threats_wf [OF wf] threats_wf [OF wf']
    by (simp_all add: exec_append)
  have pt: "prefix (map t_id (threats ?sys)) (map t_id (threats ?sys'))"
    by (subst t, subst t') (rule ids_prefix [OF len(1)])
  have pa: "prefix (map a_id (system_alerts (st ?sys))) (map a_id (system_alerts (st ?sys')))"
    by (subst a, subst a') (rule ids_prefix [OF len(2)])
  from t h a st dt sa da pt pa show ?thesis by blast
qed

theorem identifiers_unique_increasing_witness:
  "map t_id (threats (exec [Analyze brute_force_entry fixed_draws,
       Analyze login_entry fixed_draws, Analyze brute_force_entry fixed_draws] init)) = [1, 2]
   \<and> map a_id (system_alerts (st (exec [Analyze brute_force_entry fixed_draws,
       Analyze login_entry fixed_draws, Analyze brute_force_entry fixed_draws] init))) = [1, 2]"
proof -
  have n: "length (threats (exec [Analyze brute_force_entry fixed_draws,
       Analyze login_entry fixed_draws, Analyze brute_force_entry fixed_draws] init)) = 2"
    "length (system_alerts (st (exec [Analyze brute_force_entry fixed_draws,
       Analyze login_entry fixed_draws, Analyze brute_force_entry fixed_draws] init))) = 2"
    by code_simp+
  have u: "[0..<2] = [0, Suc 0]" by code_simp
  show ?thesis
    using identifiers_unique_increasing [of "[Analyze brute_force_entry fixed_draws,
       Analyze login_entry fixed_draws, Analyze brute_force_entry fixed_draws]" "[]"]
    by (simp only: n u list.map) simp
qed

section \<open>The handlers\<close>

subsection \<open>\<open>/analyze\<close>\<close>

lemma wf_a_id:
  "wf_store s \<Longrightarrow> k < length (system_alerts s) \<Longrightarrow> a_id (system_alerts s ! k) = int k + 1"
proof -
  assume wf: "wf_store s" and k: "k < length (system_alerts s)"
  have "map a_id (system_alerts s) ! k
        = map (\<lambda>k. int k + 1) [0..<length (system_alerts s)] ! k"
    using wf by (simp add: wf_store_def)
  then show ?thesis using k by simp
qed

lemma wf_t_id_bound: "wf_store s \<Longrightarrow> t \<in> set (heap s) \<Longrightarrow> t_id t \<le> int (length (heap s))"
  by (auto simp: in_set_conv_nth wf_t_id)

lemma wf_a_id_bound:
  "wf_store s \<Longrightarrow> a \<in> set (system_alerts s) \<Longrightarrow> a_id a \<le> int (length (system_alerts s))"
  by (auto simp: in_set_conv_nth wf_a_id)

lemma analyze_log_low:
  "\<not> detect_anomaly (d_uniform d) e > 0.6 \<Longrightarrow>
   analyze_log e d s =
     (\<lparr>r_log_id = int (length (threat_history s)) + 1,
       r_anomaly_score = detect_anomaly (d_uniform d) e,
       r_status = ''processed'', r_threat_detected = None, r_threat = None, r_alert = None\<rparr>,
      s, [])"
  by (simp add: analyze_log_def Let_def)

lemma analyze_log_high:
  assumes "detect_anomaly (d_uniform d) e > 0.6"
  shows "\<exists>t a new.
     analyze_log e d s =
       (\<lparr>r_log_id = int (length (threat_history s)) + 1,
         r_anomaly_score = detect_anomaly (d_uniform d) e,
         r_status = ''processed'', r_threat_detected = Some True,
         r_threat = Some t, r_alert = Some a\<rparr>,
        s\<lparr>heap := heap s @ [t],
          active_threats := active_threats s @ [length (heap s)],
          threat_history := threat_history s @ [length (heap s)],
          system_alerts := system_alerts s @ [a]\<rparr>, new)
     \<and> t_id t = int (length (active_threats s)) + 1
     \<and> t_status t = ''active''
     \<and> a_id a = int (length (system_alerts s)) + 1
     \<and> a_threat_id a = t_id t
     \<and> \<not> a_read a"
  using assms by (simp add: analyze_log_def Let_def)

text \<open>
  Claim C3. A call of \<open>/analyze\<close> whose score is strictly greater than 0.6 creates
  exactly one threat and exactly one alert: the threat is appended to \<open>active_threats\<close>
  and to \<open>threat_history\<close> and the alert to \<open>system_alerts\<close>, each with the id that
  follows the ids of all earlier creations, the alert refers to the id of the new threat
  and the threat starts \<open>active\<close>; both are in the response. A call whose score is at
  most 0.6 leaves the application as it was and its response carries no threat, no
  alert and no \<open>threat_detected\<close>.
\<close>

theorem analyze_log_creates:
  fixes es e d
  defines "sys \<equiv> exec es init"
  defines "sys' \<equiv> fire (Analyze e d) sys"
  defines "resp \<equiv> fst (analyze_log e d (st sys))"
  defines "score \<equiv> detect_anomaly (d_uniform d) e"
  shows "(score > 0.6 \<longrightarrow>
           (\<exists>t a. threats sys' = threats sys @ [t]
                \<and> history sys' = history sys @ [t]
                \<and> system_alerts (st sys') = system_alerts (st sys) @ [a]
                \<and> t_id t = int (length (threats sys)) + 1
                \<and> (\<forall>t' \<in> set (threats sys). t_id t' < t_id t)
                \<and> a_id a = int (length (system_alerts (st sys))) + 1
                \<and> (\<forall>a' \<in> set (system_alerts (st sys)). a_id a' < a_id a)
                \<and> a_threat_id a = t_id t
                \<and> t_status t = ''active''
                \<and> r_threat_detected resp = Some True
                \<and> r_threat resp = Some t
                \<and> r_alert resp = Some a))
       \<and> (score \<le> 0.6 \<longrightarrow>
           sys' = sys \<and> r_threat_detected resp = None
           \<and> r_threat resp = None \<and> r_alert resp = None)
       \<and> r_anomaly_score resp = score"
proof -
  have wf: "wf_store (st sys)" unfolding sys_def by (rule wf_exec_init)
  have wf': "wf_store (st sys')" unfolding sys'_def by (rule wf_fire [OF wf])
  have th: "threats sys = heap (st sys)" "history sys = heap (st sys)"
    "threats sys' = heap (st sys')" "history sys' = heap (st sys')"
    by (simp_all add: threats_wf history_wf wf wf')
  have n: "length (active_threats (st sys)) = length (heap (st sys))"
    using wf by (simp add: wf_store_def)
  have high: ?thesis if hi: "score > 0.6"
  proof -
    from analyze_log_high [of d e "st sys"] hi obtain t a new where
      eq: "analyze_log e d (st sys) =
        (\<lparr>r_log_id = int (length (threat_history (st sys))) + 1,
          r_anomaly_score = detect_anomaly (d_uniform d) e,
          r_status = ''processed'', r_threat_detected = Some True,
          r_threat = Some t, r_alert = Some a\<rparr>,
         (st sys)\<lparr>heap := heap (st sys) @ [t],
           active_threats := active_threats (st sys) @ [length (heap (st sys))],
           threat_history := threat_history (st sys) @ [length (heap (st sys))],
           system_alerts := system_alerts (st sys) @ [a]\<rparr>, new)"
      and t: "t_id t = int (length (active_threats (st sys))) + 1" "t_status t = ''active''"
      and a: "a_id a = int (length (system_alerts (st sys))) + 1" "a_threat_id a = t_id t"
      unfolding score_def by blast
    have st': "heap (st sys') = heap (st sys) @ [t]"
      "system_alerts (st sys') = system_alerts (st sys) @ [a]"
      unfolding sys'_def by (simp_all add: eq)
    have old_t: "\<forall>t' \<in> set (heap (st sys)). t_id t' < t_id t"
      using wf_t_id_bound [OF wf] t(1) n by fastforce
    have old_a: "\<forall>a' \<in> set (system_alerts (st sys)). a_id a' < a_id a"
      using wf_a_id_bound [OF wf] a(1) by fastforce
    have r: "r_threat_detected resp = Some True" "r_threat resp = Some t"
      "r_alert resp = Some a" "r_anomaly_score resp = score"
      unfolding resp_def score_def by (simp_all add: eq)
    from hi st' old_t old_a t a n r show ?thesis
      unfolding th by auto
  qed
  have low: ?thesis if lo: "\<not> score > 0.6"
  proof -
    have eq: "analyze_log e d (st sys) =
       (\<lparr>r_log_id = int (length (threat_history (st sys))) + 1,
         r_anomaly_score = detect_anomaly (d_uniform d) e,
         r_status = ''processed'', r_threat_detected = None, r_threat = None,
         r_alert = None\<rparr>, st sys, [])"
      using lo unfolding score_def by (rule analyze_log_low)
    have "sys' = sys" unfolding sys'_def by (simp add: eq)
    moreover have "r_threat_detected resp = None" "r_threat resp = None"
      "r_alert resp = None" "r_anomaly_score resp = score"
      unfolding resp_def score_def by (simp_all add: eq)
    ultimately show ?thesis using lo by simp
  qed
  from high low show ?thesis by blast
qed

theorem analyze_log_creates_witness:
  "detect_anomaly (d_uniform fixed_draws) brute_force_entry > 0.6
   \<and> detect_anomaly (d_uniform fixed_draws) login_entry \<le> 0.6
   \<and> map t_id (threats (fire (Analyze brute_force_entry fixed_draws)
        (exec [Analyze brute_force_entry fixed_draws] init))) = [1, 2]
   \<and> map a_threat_id (system_alerts (st (fire (Analyze brute_force_entry fixed_draws)
        (exec [Analyze brute_force_entry fixed_draws] init)))) = [1, 2]
   \<and> fire (Analyze login_entry fixed_draws) (exec [Analyze brute_force_entry fixed_draws] init)
       = exec [Analyze brute_force_entry fixed_draws] init
   \<and> (\<exists>t. threats (fire (Analyze brute_force_entry fixed_draws)
              (exec [Analyze brute_force_entry fixed_draws] init))
            = threats (exec [Analyze brute_force_entry fixed_draws] init) @ [t]
          \<and> t_id t = 2 \<and> t_status t = ''active'')"
proof -
  have hi: "detect_anomaly (d_uniform fixed_draws) brute_force_entry > 0.6" by code_simp
  have lo: "detect_anomaly (d_uniform fixed_draws) login_entry \<le> 0.6" by code_simp
  have ids: "map t_id (threats (fire (Analyze brute_force_entry fixed_draws)
        (exec [Analyze brute_force_entry fixed_draws] init))) = [1, 2]"
    "map a_threat_id (system_alerts (st (fire (Analyze brute_force_entry fixed_draws)
        (exec [Analyze brute_force_entry fixed_draws] init)))) = [1, 2]"
    by code_simp+
  from analyze_log_creates [where e = login_entry and d = fixed_draws
      and es = "[Analyze brute_force_entry fixed_draws]"] lo
  have "fire (Analyze login_entry fixed_draws) (exec [Analyze brute_force_entry fixed_draws] init)
       = exec [Analyze brute_force_entry fixed_draws] init"
    by blast
  moreover have n: "length (threats (exec [Analyze brute_force_entry fixed_draws] init)) = 1"
    by code_simp
  from analyze_log_creates [where e = brute_force_entry and d = fixed_draws
      and es = "[Analyze brute_force_entry fixed_draws]"] hi
  have "\<exists>t. threats (fire (Analyze brute_force_entry fixed_draws)
              (exec [Analyze brute_force_entry fixed_draws] init))
            = threats (exec [Analyze brute_force_entry fixed_draws] init) @ [t]
          \<and> t_id t = 2 \<and> t_status t = ''active''"
    unfolding n by auto
  ultimately show ?thesis using hi lo ids by blast
qed

subsection \<open>\<open>/threats/{threat_id}/respond\<close>\<close>

lemma find_threat_None:
  "find_threat s i = None \<longleftrightarrow> \<not> (\<exists>r \<in> set (active_threats s). t_id (deref s r) = i)"
  by (auto simp: find_threat_def find_None_iff)

text \<open>
  Claim C5. A call of \<open>POST /threats/{id}/respond\<close>: when no threat has the id it
  fails with 404 (not found); when the threat with the id is not \<open>active\<close> it fails
  with 400 (invalid state) and the storage, the threat with it, is unchanged; otherwise
  it succeeds, sets the status of the threat to \<open>responding\<close>, records
  \<open>response_initiated\<close> and \<open>response_type\<close>, changes nothing else and schedules the
  playbook task. The threat with the id is the first one in \<open>active_threats\<close>, behind
  reference \<open>r\<close>.
\<close>

theorem respond_to_threat_cases:
  "(\<not> (\<exists>q \<in> set (active_threats s). t_id (deref s q) = threat_id) \<longrightarrow>
      respond_to_threat threat_id response now s = Inl (HTTPException 404 ''Threat not found'')
    \<and> fire (Respond threat_id response now) \<lparr>st = s, tasks = ts\<rparr> = \<lparr>st = s, tasks = ts\<rparr>)
 \<and> (find_threat s threat_id = Some r \<and> t_status (deref s r) \<noteq> ''active'' \<longrightarrow>
      respond_to_threat threat_id response now s = Inl (HTTPException 400 ''Threat is not active'')
    \<and> fire (Respond threat_id response now) \<lparr>st = s, tasks = ts\<rparr> = \<lparr>st = s, tasks = ts\<rparr>)
 \<and> (find_threat s threat_id = Some r \<and> t_status (deref s r) = ''active''
      \<and> r < length (heap s) \<longrightarrow>
      (\<exists>resp s'.
          respond_to_threat threat_id response now s
            = Inr (resp, s', [PlaybookStart threat_id (tr_action response)])
        \<and> fire (Respond threat_id response now) \<lparr>st = s, tasks = ts\<rparr>
            = \<lparr>st = s', tasks = ts @ [PlaybookStart threat_id (tr_action response)]\<rparr>
        \<and> sr_status resp = ''success''
        \<and> sr_response_type resp = Some (tr_action response)
        \<and> deref s' r = (deref s r)\<lparr>t_status := ''responding'',
                                    response_initiated := Some now,
                                    response_type := Some (tr_action response)\<rparr>
        \<and> (\<forall>q. q \<noteq> r \<longrightarrow> deref s' q = deref s q)
        \<and> active_threats s' = active_threats s
        \<and> threat_history s' = threat_history s
        \<and> system_alerts s' = system_alerts s))"
proof -
  have 1: "respond_to_threat threat_id response now s = Inl (HTTPException 404 ''Threat not found'')
    \<and> fire (Respond threat_id response now) \<lparr>st = s, tasks = ts\<rparr> = \<lparr>st = s, tasks = ts\<rparr>"
    if "\<not> (\<exists>q \<in> set (active_threats s). t_id (deref s q) = threat_id)"
    using that find_threat_None [of s threat_id] by (simp add: respond_to_threat_def)
  have 2: "respond_to_threat threat_id response now s = Inl (HTTPException 400 ''Threat is not active'')
    \<and> fire (Respond threat_id response now) \<lparr>st = s, tasks = ts\<rparr> = \<lparr>st = s, tasks = ts\<rparr>"
    if "find_threat s threat_id = Some r" "t_status (deref s r) \<noteq> ''active''"
    using that by (simp add: respond_to_threat_def)
  have 3: "\<exists>resp s'.
          respond_to_threat threat_id response now s
            = Inr (resp, s', [PlaybookStart threat_id (tr_action response)])
        \<and> fire (Respond threat_id response now) \<lparr>st = s, tasks = ts\<rparr>
            = \<lparr>st = s', tasks = ts @ [PlaybookStart threat_id (tr_action response)]\<rparr>
        \<and> sr_status resp = ''success''
        \<and> sr_response_type resp = Some (tr_action response)
        \<and> deref s' r = (deref s r)\<lparr>t_status := ''responding'',
                                    response_initiated := Some now,
                                    response_type := Some (tr_action response)\<rparr>
        \<and> (\<forall>q. q \<noteq> r \<longrightarrow> deref s' q = deref s q)
        \<and> active_threats s' = active_threats s
        \<and> threat_history s' = threat_history s
        \<and> system_alerts s' = system_alerts s"
    if "find_threat s threat_id = Some r" "t_status (deref s r) = ''active''" "r < length (heap s)"
    using that by (simp add: respond_to_threat_def upd_threat_def deref_def)
  from 1 2 3 show ?thesis by blast
qed

theorem respond_to_threat_cases_witness:
  "respond_to_threat 9999 auto_mitigate ''t1''
       (st (exec [Analyze brute_force_entry fixed_draws] init))
     = Inl (HTTPException 404 ''Threat not found'')
   \<and> find_threat (st (exec [Analyze brute_force_entry fixed_draws] init)) 1 = Some 0
   \<and> t_status (deref (st (exec [Analyze brute_force_entry fixed_draws] init)) 0) = ''active''
   \<and> t_status (deref (st (exec [Analyze brute_force_entry fixed_draws,
         Respond 1 auto_mitigate ''t1''] init)) 0) = ''responding''
   \<and> respond_to_threat 1 auto_mitigate ''t2''
       (st (exec [Analyze brute_force_entry fixed_draws, Respond 1 auto_mitigate ''t1''] init))
     = Inl (HTTPException 400 ''Threat is not active'')
   \<and> (\<exists>resp s'. respond_to_threat 1 auto_mitigate ''t1''
         (st (exec [Analyze brute_force_entry fixed_draws] init))
       = Inr (resp, s', [PlaybookStart 1 ''auto_mitigate'']))"
proof -
  let ?s1 = "st (exec [Analyze brute_force_entry fixed_draws] init)"
  let ?s2 = "st (exec [Analyze brute_force_entry fixed_draws, Respond 1 auto_mitigate ''t1''] init)"
  have none: "\<not> (\<exists>q \<in> set (active_threats ?s1). t_id (deref ?s1 q) = 9999)"
    by code_simp
  have f1: "find_threat ?s1 1 = Some 0" by code_simp
  have a1: "t_status (deref ?s1 0) = ''active''" by code_simp
  have l1: "0 < length (heap ?s1)" by code_simp
  have f2: "find_threat ?s2 1 = Some 0" by code_simp
  have a2: "t_status (deref ?s2 0) = ''responding''" by code_simp
  have ne: "''responding'' \<noteq> ''active''" by simp
  have act: "tr_action auto_mitigate = ''auto_mitigate''" by (simp add: auto_mitigate_def)
  from respond_to_threat_cases [where s = ?s1 and threat_id = 9999 and response = auto_mitigate
      and now = "''t1''"] none
  have r404: "respond_to_threat 9999 auto_mitigate ''t1'' ?s1
     = Inl (HTTPException 404 ''Threat not found'')"
    by blast
  from respond_to_threat_cases [where s = ?s2 and threat_id = 1 and response = auto_mitigate
      and now = "''t2''" and r = 0] f2 a2 ne
  have r400: "respond_to_threat 1 auto_mitigate ''t2'' ?s2
     = Inl (HTTPException 400 ''Threat is not active'')"
    by metis
  from respond_to_threat_cases [where s = ?s1 and threat_id = 1 and response = auto_mitigate
      and now = "''t1''" and r = 0] f1 a1 l1
  have r200: "\<exists>resp s'. respond_to_threat 1 auto_mitigate ''t1'' ?s1
       = Inr (resp, s', [PlaybookStart 1 ''auto_mitigate''])"
    unfolding act by blast
  from r404 f1 a1 a2 r400 r200 show ?thesis by blast
qed

subsection \<open>\<open>/alerts/{alert_id}/read\<close>\<close>

lemma first_index_Some:
  "first_index P xs = Some i \<Longrightarrow> i < length xs \<and> P (xs ! i)"
  by (induction xs arbitrary: i) (auto split: if_splits)

text \<open>
  Claim C7, amended. Marking an alert that is already read returns success and the
  alert is still read, but the call is not idempotent: it overwrites the
  \<open>read_timestamp\<close> of that alert with its own reading of the clock. Nothing else of
  the storage changes.
\<close>

theorem mark_alert_read_again:
  assumes "first_index (\<lambda>a. a_id a = alert_id) (system_alerts s) = Some i"
    and "a_read (system_alerts s ! i)"
  shows "\<exists>s'. mark_alert_read alert_id now s
            = Inr (\<lparr>sr_status = ''success'', sr_message = ''Alert marked as read'',
                     sr_response_type = None\<rparr>, s')
          \<and> a_read (system_alerts s' ! i)
          \<and> read_timestamp (system_alerts s' ! i) = Some now
          \<and> s' = s\<lparr>system_alerts :=
                      (system_alerts s)[i := (system_alerts s ! i)\<lparr>read_timestamp := Some now\<rparr>]\<rparr>"
proof -
  have i: "i < length (system_alerts s)"
    using first_index_Some [OF assms(1)] by simp
  have eq: "(system_alerts s ! i)\<lparr>a_read := True, read_timestamp := Some now\<rparr>
        = (system_alerts s ! i)\<lparr>read_timestamp := Some now\<rparr>"
    using assms(2) by (cases "system_alerts s ! i") simp
  show ?thesis
    using assms i by (simp add: mark_alert_read_def eq)
qed

theorem mark_alert_read_again_witness:
  "first_index (\<lambda>a. a_id a = 1)
      (system_alerts (st (exec [Analyze brute_force_entry fixed_draws, MarkRead 1 ''t1''] init)))
     = Some 0
   \<and> a_read (system_alerts
        (st (exec [Analyze brute_force_entry fixed_draws, MarkRead 1 ''t1''] init)) ! 0)
   \<and> read_timestamp (system_alerts
        (st (exec [Analyze brute_force_entry fixed_draws, MarkRead 1 ''t1''] init)) ! 0) = Some ''t1''
   \<and> (\<exists>s'. mark_alert_read 1 ''t2''
          (st (exec [Analyze brute_force_entry fixed_draws, MarkRead 1 ''t1''] init))
            = Inr (\<lparr>sr_status = ''success'', sr_message = ''Alert marked as read'',
                     sr_response_type = None\<rparr>, s')
          \<and> a_read (system_alerts s' ! 0)
          \<and> read_timestamp (system_alerts s' ! 0) = Some ''t2'')"
proof -
  let ?s = "st (exec [Analyze brute_force_entry fixed_draws, MarkRead 1 ''t1''] init)"
  have f: "first_index (\<lambda>a. a_id a = 1) (system_alerts ?s) = Some 0" by code_simp
  have r: "a_read (system_alerts ?s ! 0)" by code_simp
  have t: "read_timestamp (system_alerts ?s ! 0) = Some ''t1''" by code_simp
  from mark_alert_read_again [OF f r, of "''t2''"] f r t show ?thesis by blast
qed

text \<open>
  Claim C7 as stated, that marking an already-read alert again is idempotent and leaves
  \<open>read_timestamp\<close> unchanged, fails. An alert marked read at \<open>t1\<close> and marked
  again at \<open>t2\<close> is still read, but its \<open>read_timestamp\<close> is \<open>t2\<close>, no longer
  \<open>t1\<close>, and the application marked twice differs from the one marked once.
\<close>

theorem mark_alert_read_overwrites_timestamp:
  "a_read (system_alerts
      (st (exec [Analyze brute_force_entry fixed_draws, MarkRead 1 ''t1''] init)) ! 0)
   \<and> read_timestamp (system_alerts
      (st (exec [Analyze brute_force_entry fixed_draws, MarkRead 1 ''t1''] init)) ! 0)
     = Some ''t1''
   \<and> read_timestamp (system_alerts
      (st (exec [Analyze brute_force_entry fixed_draws, MarkRead 1 ''t1'',
                 MarkRead 1 ''t2''] init)) ! 0)
     = Some ''t2''
   \<and> a_read (system_alerts
      (st (exec [Analyze brute_force_entry fixed_draws, MarkRead 1 ''t1'',
                 MarkRead 1 ''t2''] init)) ! 0)
   \<and> exec [Analyze brute_force_entry fixed_draws, MarkRead 1 ''t1'', MarkRead 1 ''t2''] init
     \<noteq> exec [Analyze brute_force_entry fixed_draws, MarkRead 1 ''t1''] init"
proof -
  let ?once = "exec [Analyze brute_force_entry fixed_draws, MarkRead 1 ''t1''] init"
  let ?twice = "exec [Analyze brute_force_entry fixed_draws, MarkRead 1 ''t1'',
                 MarkRead 1 ''t2''] init"
  have r1: "a_read (system_alerts (st ?once) ! 0)" by code_simp
  have t1: "read_timestamp (system_alerts (st ?once) ! 0) = Some ''t1''" by code_simp
  have t2: "read_timestamp (system_alerts (st ?twice) ! 0) = Some ''t2''" by code_simp
  have r2: "a_read (system_alerts (st ?twice) ! 0)" by code_simp
  have "?twice \<noteq> ?once"
  proof
    assume "?twice = ?once"
    then have "read_timestamp (system_alerts (st ?twice) ! 0)
               = read_timestamp (system_alerts (st ?once) ! 0)"
      by simp
    with t1 t2 show False by simp
  qed
  with r1 t1 t2 r2 show ?thesis by blast
qed

subsection \<open>\<open>/threats/history\<close>\<close>

text \<open>
  For a positive limit the handler returns the last \<open>limit\<close> threats of the history
  in the order of insertion, all of them when there are fewer, and the total.
\<close>

lemma slice_from_last:
  "0 < n \<Longrightarrow> slice_from (- n) xs = drop (length xs - nat n) xs"
  by (auto simp: slice_from_def Let_def max_def nat_diff_distrib' intro: arg_cong [where f = "\<lambda>k. drop k xs"])

lemma get_threat_history_positive_limit:
  assumes "0 < limit"
  shows "h_threats (get_threat_history limit s)
           = map (deref s) (drop (length (threat_history s) - nat limit) (threat_history s))
       \<and> int (length (h_threats (get_threat_history limit s))) \<le> limit
       \<and> h_total (get_threat_history limit s) = int (length (threat_history s))"
  using assms by (auto simp: get_threat_history_def slice_from_last)

lemma get_threat_history_limit_zero:
  "h_threats (get_threat_history 0 s) = map (deref s) (threat_history s)"
  by (simp add: get_threat_history_def slice_from_def)

text \<open>
  Claim C8. \<open>GET /threats/history?limit=N\<close> is to return at most \<open>N\<close> threats, the
  most recent ones. With \<open>N = 0\<close> the slice \<open>threat_history[-0:]\<close> is the whole list:
  on a history of two threats the handler returns both, where limit 1 returns the
  last one.
\<close>

theorem history_limit_zero_returns_all:
  "map t_id (h_threats (get_threat_history 0
      (st (exec [Analyze brute_force_entry fixed_draws,
                 Analyze brute_force_entry fixed_draws] init)))) = [1, 2]
   \<and> length (h_threats (get_threat_history 0
      (st (exec [Analyze brute_force_entry fixed_draws,
                 Analyze brute_force_entry fixed_draws] init)))) = 2
   \<and> map t_id (h_threats (get_threat_history 1
      (st (exec [Analyze brute_force_entry fixed_draws,
                 Analyze brute_force_entry fixed_draws] init)))) = [2]"
  by code_simp

section \<open>The lifecycle of a threat under interleaving\<close>

text \<open>
  Claim C1. Once the status of a threat is \<open>resolved\<close> it is to stay so, and every
  change of status is to move forward along active, responding, mitigating, resolved.
  The automated-response task sets \<open>mitigating\<close> without looking at the status. In the
  run below a threat is created with \<open>immediate_action\<close>, a response is requested, the
  playbook task runs both of its segments and resolves the threat, and then the first
  segment of the automated-response task runs: the status goes from \<open>resolved\<close> back
  to \<open>mitigating\<close>.
\<close>

theorem resolved_threat_set_back_to_mitigating:
  "status_of (exec [Analyze brute_force_entry fixed_draws] init) 1 = Some ''active''
   \<and> tasks (exec [Analyze brute_force_entry fixed_draws] init) = [AutoStart 1]
   \<and> status_of (exec [Analyze brute_force_entry fixed_draws,
        Respond 1 auto_mitigate ''t1''] init) 1 = Some ''responding''
   \<and> tasks (exec [Analyze brute_force_entry fixed_draws,
        Respond 1 auto_mitigate ''t1''] init) = [AutoStart 1, PlaybookStart 1 ''auto_mitigate'']
   \<and> status_of (exec [Analyze brute_force_entry fixed_draws,
        Respond 1 auto_mitigate ''t1'', RunTask 1 ''t2'', RunTask 1 ''t3''] init) 1
      = Some ''resolved''
   \<and> tasks (exec [Analyze brute_force_entry fixed_draws,
        Respond 1 auto_mitigate ''t1'', RunTask 1 ''t2'', RunTask 1 ''t3''] init) = [AutoStart 1]
   \<and> status_of (exec [Analyze brute_force_entry fixed_draws,
        Respond 1 auto_mitigate ''t1'', RunTask 1 ''t2'', RunTask 1 ''t3'',
        RunTask 0 ''t4''] init) 1
      = Some ''mitigating''"
  by code_simp

end
